theory Spec2Isabelle
  imports Main "HOL-Library.Sublist"
begin

section \<open>The reminder seeding script\<close>

text \<open>
  \<^verbatim>\<open>scripts/seed_reminders.py\<close> parses five optional flags with \<^verbatim>\<open>argparse\<close>, puts
  the parsed values into a dictionary, serialises it with \<^verbatim>\<open>json.dumps\<close>, prints the
  command line \<^verbatim>\<open>npx convex run internal.reminders.seedRemindersTestData <json>\<close> and
  runs it with \<^verbatim>\<open>subprocess.run(cmd, check=True)\<close>.

  The script is twenty lines of glue around four library calls, so the embedding has two
  layers. The script itself (\<open>main\<close>, the \<^verbatim>\<open>__main__\<close> guard) is translated line by
  line. The library calls are modelled as CPython 3.11 implements them, restricted to the
  configuration the script uses: \<^verbatim>\<open>ArgumentParser()\<close> with its default help option
  and the five \<^verbatim>\<open>add_argument\<close> calls, \<^verbatim>\<open>json.dumps\<close> with default settings on a
  flat dictionary of integers and strings, and \<^verbatim>\<open>subprocess.run\<close> with \<^verbatim>\<open>check=True\<close>.
  Python's built-in \<^verbatim>\<open>int\<close>, the \<^verbatim>\<open>type\<close> of four flags, is a parameter \<open>to_int\<close>
  of the model; what the operating system does with the command is a parameter \<open>os\<close>.

  Strings are \<^typ>\<open>string\<close>: a character stands for a code point below 256.
\<close>

subsection \<open>The argument parser\<close>

text \<open>
  The parser is argparse as CPython 3.11.10 has it. Two of its steps were changed within
  the 3.11 series, and earlier releases differ from this model at two kinds of command
  lines. A cluster such as \<^verbatim>\<open>-hx\<close>, the help option followed by a letter that is no
  option, is a usage error there; here the help action is taken. The explicit argument
  \<^verbatim>\<open>--\<close>, as in \<^verbatim>\<open>--team-name=--\<close>, is dropped there and an empty list is stored;
  here it is a value like any other. On every other command line the releases agree.
\<close>

text \<open>The namespace \<^verbatim>\<open>parse_args\<close> returns: one attribute per \<^verbatim>\<open>add_argument\<close>.\<close>

record namespace =
  count_1h :: int
  count_24h :: int
  minutes_1h :: int
  minutes_24h :: int
  team_name :: string

text \<open>
  The actions of the parser: the help action every \<^verbatim>\<open>ArgumentParser()\<close> has, and one
  store action per flag (lines 26 to 30).
\<close>

datatype action = Help | Count_1h | Count_24h | Minutes_1h | Minutes_24h | Team_name

definition option_string_actions :: "(string \<times> action) list" where
  "option_string_actions =
     [(''-h'', Help), (''--help'', Help),
      (''--count-1h'', Count_1h),
      (''--count-24h'', Count_24h),
      (''--minutes-1h'', Minutes_1h),
      (''--minutes-24h'', Minutes_24h),
      (''--team-name'', Team_name)]"

text \<open>The \<^verbatim>\<open>default=\<close> of each flag; \<^verbatim>\<open>24 * 60 + 10\<close> is kept as written.\<close>

definition defaults :: namespace where
  "defaults = \<lparr>count_1h = 2, count_24h = 2, minutes_1h = 65,
               minutes_24h = 24 * 60 + 10, team_name = ''Seed Team''\<rparr>"

text \<open>
  The ways \<^verbatim>\<open>parse_args\<close> leaves the program instead of returning:
  \<^verbatim>\<open>parser.error\<close> (usage and message on standard error, \<^verbatim>\<open>sys.exit(2)\<close>) and the
  help action (help text on standard output, \<^verbatim>\<open>sys.exit(0)\<close>).
\<close>

datatype usage_error =
    Ambiguous_option string "string list"
  | Expected_one_argument action
  | Invalid_int_value action string
  | Ignored_explicit_argument action string
  | Unrecognized_arguments "string list"

datatype parser_exit = Usage_error usage_error | Help_exit

text \<open>
  What \<^verbatim>\<open>_parse_optional\<close> returns for an option: the action (\<open>None\<close> for a string
  that looks like an option the parser does not have), the option string, the separator
  and the explicit argument.
\<close>

datatype option_tuple = Option_tuple "action option" string "string option" "string option"

datatype pattern = Arg | Opt option_tuple | Dashes

text \<open>\<^verbatim>\<open>str.partition\<close>: the part before the first separator, the separator, the rest.\<close>

definition partition_str :: "char \<Rightarrow> string \<Rightarrow> string \<times> string \<times> string" where
  "partition_str c s =
     (case dropWhile (\<lambda>x. x \<noteq> c) s of
        [] \<Rightarrow> (s, [], [])
      | _ # r \<Rightarrow> (takeWhile (\<lambda>x. x \<noteq> c) s, [c], r))"

definition is_digit :: "char \<Rightarrow> bool" where
  "is_digit c = (c \<in> set ''0123456789'')"

text \<open>
  \<^verbatim>\<open>_negative_number_matcher\<close>, the regular expression
  \<^verbatim>\<open>^-\d+$|^-\d*\.\d+$\<close>; \<^verbatim>\<open>$\<close> also matches before one final newline.
\<close>

definition negative_number_matcher :: "string \<Rightarrow> bool" where
  "negative_number_matcher s =
     (case s of
        [] \<Rightarrow> False
      | c # r \<Rightarrow>
          c = CHR ''-'' \<and>
          (let b = (if r \<noteq> [] \<and> last r = CHR 0x0A then butlast r else r);
               f = dropWhile is_digit b
           in (b \<noteq> [] \<and> f = []) \<or>
              (case f of
                 [] \<Rightarrow> False
               | d # g \<Rightarrow> d = CHR ''.'' \<and> g \<noteq> [] \<and> list_all is_digit g)))"

text \<open>
  \<^verbatim>\<open>_get_option_tuples\<close>: the options a string abbreviates. A string with two dashes
  is split at \<^verbatim>\<open>=\<close> and matches every option string it is a prefix of; a string with
  one dash matches the option made of its first two characters, the rest being the
  explicit argument, and every option string it is a prefix of. It is called on strings of
  at least two characters that start with a dash.
\<close>

definition get_option_tuples :: "string \<Rightarrow> option_tuple list" where
  "get_option_tuples s =
     (if prefix ''--'' s then
        (let (option_prefix, sep, explicit_arg) = partition_str CHR ''='' s
         in map (\<lambda>(option_string, a).
                   Option_tuple (Some a) option_string
                     (if sep = [] then None else Some sep)
                     (if sep = [] then None else Some explicit_arg))
              (filter (\<lambda>(option_string, a). prefix option_prefix option_string)
                 option_string_actions))
      else
        concat (map (\<lambda>(option_string, a).
                  if option_string = take 2 s
                  then [Option_tuple (Some a) option_string (Some []) (Some (drop 2 s))]
                  else if prefix s option_string
                  then [Option_tuple (Some a) option_string None None]
                  else [])
               option_string_actions))"

definition option_string_of :: "option_tuple \<Rightarrow> string" where
  "option_string_of t = (case t of Option_tuple a option_string sep e \<Rightarrow> option_string)"

text \<open>
  \<^verbatim>\<open>_parse_optional\<close>: \<open>Inr None\<close> for a positional argument, \<open>Inr (Some t)\<close> for an
  option, \<open>Inl\<close> for the error on an ambiguous abbreviation. The parser has no option
  string that looks like a negative number.
\<close>

definition parse_optional :: "string \<Rightarrow> usage_error + option_tuple option" where
  "parse_optional arg_string =
     (if arg_string = [] then Inr None
      else if hd arg_string \<noteq> CHR ''-'' then Inr None
      else
        (case map_of option_string_actions arg_string of
           Some a \<Rightarrow> Inr (Some (Option_tuple (Some a) arg_string None None))
         | None \<Rightarrow>
             (if length arg_string = 1 then Inr None
              else
                (let (option_string, sep, explicit_arg) = partition_str CHR ''='' arg_string
                 in (case (if sep \<noteq> [] then map_of option_string_actions option_string
                           else None) of
                       Some a \<Rightarrow>
                         Inr (Some (Option_tuple (Some a) option_string (Some sep)
                                      (Some explicit_arg)))
                     | None \<Rightarrow>
                         (let option_tuples = get_option_tuples arg_string
                          in if length option_tuples > 1
                             then Inl (Ambiguous_option arg_string
                                         (map option_string_of option_tuples))
                             else if length option_tuples = 1
                             then Inr (Some (hd option_tuples))
                             else if negative_number_matcher arg_string then Inr None
                             else if CHR '' '' \<in> set arg_string then Inr None
                             else Inr (Some (Option_tuple None arg_string None None))))))))"

text \<open>
  The first pass of \<^verbatim>\<open>_parse_known_args\<close>: every argument string gets its pattern;
  after \<^verbatim>\<open>--\<close> all strings are arguments. An ambiguous abbreviation ends the parse here,
  before any action is taken.
\<close>

fun arg_strings_pattern :: "string list \<Rightarrow> usage_error + (string \<times> pattern) list" where
  "arg_strings_pattern [] = Inr []"
| "arg_strings_pattern (arg_string # rest) =
     (if arg_string = ''--'' then Inr ((arg_string, Dashes) # map (\<lambda>s. (s, Arg)) rest)
      else case parse_optional arg_string of
        Inl e \<Rightarrow> Inl e
      | Inr t \<Rightarrow>
          (case arg_strings_pattern rest of
             Inl e \<Rightarrow> Inl e
           | Inr ps \<Rightarrow>
               Inr ((arg_string, (case t of None \<Rightarrow> Arg | Some tup \<Rightarrow> Opt tup)) # ps)))"

text \<open>
  \<^verbatim>\<open>_match_argument\<close>: how many of the following strings the action takes. The help
  action has \<^verbatim>\<open>nargs=0\<close>; a store action needs exactly one argument string next.
\<close>

definition match_argument :: "action \<Rightarrow> pattern list \<Rightarrow> usage_error + nat" where
  "match_argument a ps =
     (if a = Help then Inr 0
      else case ps of
        Arg # _ \<Rightarrow> Inr 1
      | _ \<Rightarrow> Inl (Expected_one_argument a))"

text \<open>
  The loop of \<^verbatim>\<open>consume_optional\<close>, given the strings after the option with
  their patterns. It returns the action tuples, the number of following strings taken and
  the extras. An option string has at least two characters,
  so \<^verbatim>\<open>option_string[1]\<close> exists.
\<close>

function consume_optional ::
  "action \<Rightarrow> string \<Rightarrow> string option \<Rightarrow> string option \<Rightarrow> (string \<times> pattern) list \<Rightarrow>
   (action \<times> string list) list \<Rightarrow>
   usage_error + ((action \<times> string list) list \<times> nat \<times> string list)" where
  "consume_optional a option_string sep explicit_arg following action_tuples =
     (case explicit_arg of
        None \<Rightarrow>
          (case match_argument a (map snd following) of
             Inl e \<Rightarrow> Inl e
           | Inr arg_count \<Rightarrow>
               Inr (action_tuples @ [(a, map fst (take arg_count following))], arg_count, []))
      | Some e \<Rightarrow>
          (case match_argument a [Arg] of
             Inl err \<Rightarrow> Inl err
           | Inr arg_count \<Rightarrow>
               if arg_count = 0 \<and> option_string ! 1 \<noteq> CHR ''-'' \<and> e \<noteq> [] then
                 (if (sep \<noteq> None \<and> sep \<noteq> Some []) \<or> hd e = CHR ''-''
                  then Inl (Ignored_explicit_argument a e)
                  else
                    (case map_of option_string_actions [CHR ''-'', hd e] of
                       Some a' \<Rightarrow>
                         (if tl e = [] then
                            consume_optional a' [CHR ''-'', hd e] None None following
                              (action_tuples @ [(a, [])])
                          else if hd (tl e) = CHR ''='' then
                            consume_optional a' [CHR ''-'', hd e] (Some ''='') (Some (tl (tl e)))
                              following (action_tuples @ [(a, [])])
                          else
                            consume_optional a' [CHR ''-'', hd e] (Some []) (Some (tl e))
                              following (action_tuples @ [(a, [])]))
                     | None \<Rightarrow> Inr (action_tuples @ [(a, [])], 0, [CHR ''-'' # e])))
               else if arg_count = 1 then Inr (action_tuples @ [(a, [e])], 0, [])
               else Inl (Ignored_explicit_argument a e)))"
  by pat_completeness auto
termination
  by (relation "measure (\<lambda>(a, os, sep, e, f, ts). case e of None \<Rightarrow> 0 | Some x \<Rightarrow> Suc (length x))")
     (auto simp: less_Suc_eq_le neq_Nil_conv)

text \<open>
  \<^verbatim>\<open>take_action\<close>: \<^verbatim>\<open>_get_values\<close> converts the one argument string with the
  action's \<^verbatim>\<open>type\<close> (\<open>to_int\<close> for the four integer flags, the identity \<^verbatim>\<open>str\<close>
  for the team name), then the action runs: a store action sets its attribute, the help
  action prints the help and exits. A store action always gets exactly one string, from
  \<open>match_argument\<close>; the last case is never reached.
\<close>

definition setattr_int :: "action \<Rightarrow> int \<Rightarrow> namespace \<Rightarrow> namespace" where
  "setattr_int a n ns =
     (case a of
        Count_1h \<Rightarrow> ns\<lparr>count_1h := n\<rparr>
      | Count_24h \<Rightarrow> ns\<lparr>count_24h := n\<rparr>
      | Minutes_1h \<Rightarrow> ns\<lparr>minutes_1h := n\<rparr>
      | Minutes_24h \<Rightarrow> ns\<lparr>minutes_24h := n\<rparr>
      | _ \<Rightarrow> ns)"

definition take_action ::
  "(string \<Rightarrow> int option) \<Rightarrow> action \<Rightarrow> string list \<Rightarrow> namespace \<Rightarrow> parser_exit + namespace" where
  "take_action to_int a argument_strings ns =
     (if a = Help then Inl Help_exit
      else case argument_strings of
        [arg_string] \<Rightarrow>
          (if a = Team_name then Inr (ns\<lparr>team_name := arg_string\<rparr>)
           else case to_int arg_string of
             None \<Rightarrow> Inl (Usage_error (Invalid_int_value a arg_string))
           | Some n \<Rightarrow> Inr (setattr_int a n ns))
      | _ \<Rightarrow> Inl (Usage_error (Expected_one_argument a)))"

fun take_actions ::
  "(string \<Rightarrow> int option) \<Rightarrow> (action \<times> string list) list \<Rightarrow> namespace \<Rightarrow>
   parser_exit + namespace" where
  "take_actions to_int [] ns = Inr ns"
| "take_actions to_int ((a, argument_strings) # ts) ns =
     (case take_action to_int a argument_strings ns of
        Inl x \<Rightarrow> Inl x
      | Inr ns' \<Rightarrow> take_actions to_int ts ns')"

text \<open>
  The main loop of \<^verbatim>\<open>_parse_known_args\<close>. The parser has no positional argument, so
  \<^verbatim>\<open>consume_positionals\<close> takes nothing: every string that is not an option of the
  parser or the argument of one goes to the extras, in order.
\<close>

fun consume ::
  "(string \<Rightarrow> int option) \<Rightarrow> (string \<times> pattern) list \<Rightarrow> namespace \<Rightarrow> string list \<Rightarrow>
   parser_exit + (namespace \<times> string list)" where
  "consume to_int [] ns extras = Inr (ns, extras)"
| "consume to_int ((s, Arg) # rest) ns extras = consume to_int rest ns (extras @ [s])"
| "consume to_int ((s, Dashes) # rest) ns extras = consume to_int rest ns (extras @ [s])"
| "consume to_int ((s, Opt (Option_tuple None option_string sep explicit_arg)) # rest) ns extras =
     consume to_int rest ns (extras @ [s])"
| "consume to_int ((s, Opt (Option_tuple (Some a) option_string sep explicit_arg)) # rest) ns extras =
     (case consume_optional a option_string sep explicit_arg rest [] of
        Inl e \<Rightarrow> Inl (Usage_error e)
      | Inr (action_tuples, arg_count, ex) \<Rightarrow>
          (case take_actions to_int action_tuples ns of
             Inl x \<Rightarrow> Inl x
           | Inr ns' \<Rightarrow> consume to_int (drop arg_count rest) ns' (extras @ ex)))"

text \<open>
  \<^verbatim>\<open>parse_known_args\<close> starts from the defaults. At the end argparse converts a string
  default that was not overridden with the action's type: that is \<^verbatim>\<open>str("Seed Team")\<close>,
  the same string. \<^verbatim>\<open>parse_args\<close> turns remaining extras into a usage error.
\<close>

definition parse_known_args ::
  "(string \<Rightarrow> int option) \<Rightarrow> string list \<Rightarrow> parser_exit + (namespace \<times> string list)" where
  "parse_known_args to_int args =
     (case arg_strings_pattern args of
        Inl e \<Rightarrow> Inl (Usage_error e)
      | Inr ps \<Rightarrow> consume to_int ps defaults [])"

definition parse_args :: "(string \<Rightarrow> int option) \<Rightarrow> string list \<Rightarrow> parser_exit + namespace" where
  "parse_args to_int args =
     (case parse_known_args to_int args of
        Inl x \<Rightarrow> Inl x
      | Inr (ns, argv) \<Rightarrow>
          if argv \<noteq> [] then Inl (Usage_error (Unrecognized_arguments argv)) else Inr ns)"

text \<open>
  To run the model on a concrete command line, \<open>to_int\<close> is instantiated with a reader
  of plain decimal literals: an optional sign and ASCII digits. Python's \<^verbatim>\<open>int\<close> gives
  these strings this value; it accepts more (surrounding whitespace, underscores between
  digits), which no concrete run below uses.
\<close>

definition digit_val :: "char \<Rightarrow> nat" where
  "digit_val c = of_char c - 48"

definition nat_of_digits :: "string \<Rightarrow> nat" where
  "nat_of_digits s = foldl (\<lambda>n c. 10 * n + digit_val c) 0 s"

definition int_literal :: "string \<Rightarrow> int option" where
  "int_literal s =
     (case s of
        [] \<Rightarrow> None
      | c # r \<Rightarrow>
          if c = CHR ''-'' \<or> c = CHR ''+'' then
            (if r \<noteq> [] \<and> list_all is_digit r
             then Some ((if c = CHR ''-'' then - 1 else 1) * int (nat_of_digits r))
             else None)
          else if list_all is_digit s then Some (int (nat_of_digits s))
          else None)"

subsection \<open>Serialising the payload\<close>

text \<open>
  The payload is a dictionary with string keys whose values are integers or strings; a
  Python dictionary keeps insertion order, so it is an association list.
\<close>

datatype json = JInt int | JStr string

type_synonym payload = "(string \<times> json) list"

text \<open>
  \<^verbatim>\<open>str\<close> of an integer, also what \<^verbatim>\<open>json.dumps\<close> and an f-string write.
  \<open>digit_char\<close> is applied to numbers below ten only.
\<close>

definition digit_char :: "nat \<Rightarrow> char" where
  "digit_char d = ''0123456789'' ! d"

fun str_nat :: "nat \<Rightarrow> string" where
  "str_nat n = (if n < 10 then [digit_char n] else str_nat (n div 10) @ [digit_char (n mod 10)])"

definition str_int :: "int \<Rightarrow> string" where
  "str_int i = (if i < 0 then CHR ''-'' # str_nat (nat (- i)) else str_nat (nat i))"

text \<open>
  \<^verbatim>\<open>'{0:04x}'.format(n)\<close> for a code point below \<open>0x10000\<close>; \<open>hex_char\<close> is
  applied to numbers below sixteen only.
\<close>

definition hex_char :: "nat \<Rightarrow> char" where
  "hex_char d = ''0123456789abcdef'' ! d"

definition hex4 :: "nat \<Rightarrow> string" where
  "hex4 n = [hex_char (n div 4096 mod 16), hex_char (n div 256 mod 16),
             hex_char (n div 16 mod 16), hex_char (n mod 16)]"

text \<open>
  \<^verbatim>\<open>ESCAPE_DCT\<close> of \<^verbatim>\<open>json.encoder\<close>: the short escapes, and \<^verbatim>\<open>\u00XX\<close> for the
  other control characters. \<open>CHR 0x5C\<close> is the backslash, \<open>CHR 0x22\<close> the double quote.
\<close>

definition ESCAPE_DCT :: "char \<Rightarrow> string option" where
  "ESCAPE_DCT c =
     (case map_of
        [(CHR 0x5C, [CHR 0x5C, CHR 0x5C]),
         (CHR 0x22, [CHR 0x5C, CHR 0x22]),
         (CHR 0x08, [CHR 0x5C, CHR ''b'']),
         (CHR 0x0C, [CHR 0x5C, CHR ''f'']),
         (CHR 0x0A, [CHR 0x5C, CHR ''n'']),
         (CHR 0x0D, [CHR 0x5C, CHR ''r'']),
         (CHR 0x09, [CHR 0x5C, CHR ''t''])] c of
        Some r \<Rightarrow> Some r
      | None \<Rightarrow>
          if (of_char c :: nat) < 0x20 then Some ([CHR 0x5C, CHR ''u''] @ hex4 (of_char c))
          else None)"

text \<open>
  \<^verbatim>\<open>py_encode_basestring_ascii\<close>: every character matching
  \<^verbatim>\<open>([\\"]|[^\ -~])\<close> is replaced, by its entry in the table or by \<^verbatim>\<open>\uXXXX\<close>.
\<close>

definition escape_ascii :: "char \<Rightarrow> bool" where
  "escape_ascii c =
     (c = CHR 0x5C \<or> c = CHR 0x22 \<or> \<not> (32 \<le> (of_char c :: nat) \<and> (of_char c :: nat) \<le> 126))"

definition replace :: "char \<Rightarrow> string" where
  "replace c =
     (case ESCAPE_DCT c of
        Some r \<Rightarrow> r
      | None \<Rightarrow> [CHR 0x5C, CHR ''u''] @ hex4 (of_char c))"

definition encode_basestring_ascii :: "string \<Rightarrow> string" where
  "encode_basestring_ascii s =
     [CHR 0x22] @ concat (map (\<lambda>c. if escape_ascii c then replace c else [c]) s) @ [CHR 0x22]"

text \<open>\<^verbatim>\<open>sep.join(xs)\<close>.\<close>

fun join :: "string \<Rightarrow> string list \<Rightarrow> string" where
  "join sep [] = []"
| "join sep [x] = x"
| "join sep (x # y # ys) = x @ sep @ join sep (y # ys)"

text \<open>
  \<^verbatim>\<open>json.dumps\<close> with its defaults: \<^verbatim>\<open>ensure_ascii=True\<close>, no indentation, the
  separators \<^verbatim>\<open>', '\<close> and \<^verbatim>\<open>': '\<close>, keys in insertion order.
\<close>

fun encode_value :: "json \<Rightarrow> string" where
  "encode_value (JInt n) = str_int n"
| "encode_value (JStr s) = encode_basestring_ascii s"

definition enc_member :: "string \<times> json \<Rightarrow> string" where
  "enc_member kv = encode_basestring_ascii (fst kv) @ '': '' @ encode_value (snd kv)"

definition json_dumps :: "payload \<Rightarrow> string" where
  "json_dumps d = ''{'' @ join '', '' (map enc_member d) @ ''}''"

subsection \<open>Running the command\<close>

text \<open>
  What the operating system does when asked to run a command: the child runs and ends
  with a return code, or it cannot be started (the executable is missing or may not be
  executed).
\<close>

datatype child = Exited int | Not_started

datatype exn = SystemExit int | CalledProcessError int | OSError

text \<open>
  What the program does that the outside can see, in order: lines printed by the script,
  the help or the usage error printed by argparse, the call of \<^verbatim>\<open>subprocess.run\<close>
  with its command, the end of the child that the call waits for, and the traceback the
  interpreter prints for an exception nobody caught.
\<close>

datatype event =
    Print_stdout string
  | Print_stderr string
  | Argparse_help
  | Argparse_error usage_error
  | Subprocess_run "string list"
  | Child_exited int
  | Traceback exn

definition on_stderr :: "event \<Rightarrow> bool" where
  "on_stderr ev =
     (case ev of
        Print_stderr _ \<Rightarrow> True
      | Argparse_error _ \<Rightarrow> True
      | Traceback _ \<Rightarrow> True
      | _ \<Rightarrow> False)"

definition is_run :: "event \<Rightarrow> bool" where
  "is_run ev = (case ev of Subprocess_run _ \<Rightarrow> True | _ \<Rightarrow> False)"

text \<open>
  \<^verbatim>\<open>subprocess.run(cmd, check=True)\<close> starts the command as one child, without a
  shell, and waits: it comes back only when the child has ended, with the return code the
  child ended with, and raises \<^verbatim>\<open>CalledProcessError\<close> when that code is not zero. A
  child that cannot be started is an \<^verbatim>\<open>OSError\<close> (\<^verbatim>\<open>FileNotFoundError\<close>,
  \<^verbatim>\<open>PermissionError\<close>) and there is nothing to wait for.
\<close>

definition subprocess_run ::
  "(string list \<Rightarrow> child) \<Rightarrow> string list \<Rightarrow> event list \<times> (exn + unit)" where
  "subprocess_run os cmd =
     (case os cmd of
        Not_started \<Rightarrow> ([Subprocess_run cmd], Inl OSError)
      | Exited returncode \<Rightarrow>
          ([Subprocess_run cmd, Child_exited returncode],
           if returncode \<noteq> 0 then Inl (CalledProcessError returncode) else Inr ()))"

subsection \<open>The script\<close>

text \<open>Lines 33 to 39, the payload, and lines 41 to 47, the command.\<close>

definition payload_of :: "namespace \<Rightarrow> payload" where
  "payload_of args =
     [(''count1h'', JInt (count_1h args)),
      (''count24h'', JInt (count_24h args)),
      (''minutesFromNowFor1h'', JInt (minutes_1h args)),
      (''minutesFromNowFor24h'', JInt (minutes_24h args)),
      (''reuseTeamName'', JStr (team_name args))]"

text \<open>Lines 31 to 39 alone: the payload built for a command line, when it parses.\<close>

definition payload_for ::
  "(string \<Rightarrow> int option) \<Rightarrow> string list \<Rightarrow> parser_exit + payload" where
  "payload_for to_int argv =
     (case parse_args to_int argv of
        Inl x \<Rightarrow> Inl x
      | Inr args \<Rightarrow> Inr (payload_of args))"

definition cmd_of :: "payload \<Rightarrow> string list" where
  "cmd_of payload =
     [''npx'', ''convex'', ''run'', ''internal.reminders.seedRemindersTestData'',
      json_dumps payload]"

text \<open>
  \<open>main\<close> returns the events in order and how it ends: \<open>Inr\<close> its return value,
  \<open>Inl\<close> the exception that leaves it (\<^verbatim>\<open>SystemExit\<close> from argparse, or what
  \<^verbatim>\<open>subprocess.run\<close> raised and line 53 did not catch).
\<close>

definition main ::
  "(string \<Rightarrow> int option) \<Rightarrow> (string list \<Rightarrow> child) \<Rightarrow> string list \<Rightarrow> event list \<times> (exn + int)" where
  "main to_int os argv =
     (case parse_args to_int argv of
        Inl (Usage_error e) \<Rightarrow> ([Argparse_error e], Inl (SystemExit 2))
      | Inl Help_exit \<Rightarrow> ([Argparse_help], Inl (SystemExit 0))
      | Inr args \<Rightarrow>
          (let payload = payload_of args;
               cmd = cmd_of payload;
               printed = [Print_stdout (''Running: '' @ join '' '' cmd)]
           in case subprocess_run os cmd of
                (evs, Inr _) \<Rightarrow> (printed @ evs, Inr 0)
              | (evs, Inl (CalledProcessError returncode)) \<Rightarrow>
                  (printed @ evs
                     @ [Print_stderr (''Seed failed (exit '' @ str_int returncode @ '').'')],
                   Inr returncode)
              | (evs, Inl e) \<Rightarrow> (printed @ evs, Inl e)))"

text \<open>
  Lines 58 and 59, \<^verbatim>\<open>raise SystemExit(main())\<close>, and the interpreter around them: the
  exit status is the code of the \<^verbatim>\<open>SystemExit\<close>; any other exception is printed as a
  traceback on standard error and the status is 1. The status is the integer the
  interpreter hands to the operating system; a system that keeps only one byte of it is
  not modelled.
\<close>

definition program ::
  "(string \<Rightarrow> int option) \<Rightarrow> (string list \<Rightarrow> child) \<Rightarrow> string list \<Rightarrow> event list \<times> int" where
  "program to_int os argv =
     (case main to_int os argv of
        (evs, Inr code) \<Rightarrow> (evs, code)
      | (evs, Inl (SystemExit code)) \<Rightarrow> (evs, code)
      | (evs, Inl e) \<Rightarrow> (evs @ [Traceback e], 1))"

subsection \<open>Reading the command line and the payload back\<close>

text \<open>
  The claims speak of the flags given on a command line and of the value a flag is given.
  Both are read off the patterns of the first pass. The flags given are the option
  strings of the parser that argparse finds, written in full or abbreviated; the value of
  a flag is the explicit argument after \<^verbatim>\<open>=\<close>, or else the next string when it is
  an argument.
\<close>

fun option_strings :: "(string \<times> pattern) list \<Rightarrow> string list" where
  "option_strings [] = []"
| "option_strings ((s, Opt (Option_tuple (Some a) option_string sep explicit_arg)) # rest) =
     option_string # option_strings rest"
| "option_strings (_ # rest) = option_strings rest"

fun values_for :: "string \<Rightarrow> (string \<times> pattern) list \<Rightarrow> string list" where
  "values_for flag [] = []"
| "values_for flag ((s, Opt (Option_tuple (Some a) option_string sep (Some e))) # rest) =
     (if flag = option_string then [e] else []) @ values_for flag rest"
| "values_for flag ((s, Opt (Option_tuple (Some a) option_string sep None)) # (v, Arg) # rest) =
     (if flag = option_string then [v] else []) @ values_for flag rest"
| "values_for flag (_ # rest) = values_for flag rest"

text \<open>
  The value a flag ends with: its default when the flag is not given, the conversion of
  the last value given otherwise.
\<close>

definition parsed_int ::
  "(string \<Rightarrow> int option) \<Rightarrow> string \<Rightarrow> (string \<times> pattern) list \<Rightarrow> int \<Rightarrow> int option" where
  "parsed_int to_int flag ps d =
     (if values_for flag ps = [] then Some d else to_int (last (values_for flag ps)))"

definition parsed_str :: "string \<Rightarrow> (string \<times> pattern) list \<Rightarrow> string \<Rightarrow> string" where
  "parsed_str flag ps d = (if values_for flag ps = [] then d else last (values_for flag ps))"

definition int_flags :: "string list" where
  "int_flags = [''--count-1h'', ''--count-24h'', ''--minutes-1h'', ''--minutes-24h'']"

text \<open>
  The patterns of a whole command line, string by string: the first pass without its
  early exit. An ambiguous abbreviation, which ends the real first pass, counts here as
  an option the parser does not have, so that the flags and values of a command line are
  defined whether argparse gets past the first pass or not. Where the first pass
  succeeds the two agree.
\<close>

fun patterns_of :: "string list \<Rightarrow> (string \<times> pattern) list" where
  "patterns_of [] = []"
| "patterns_of (arg_string # rest) =
     (if arg_string = ''--'' then (arg_string, Dashes) # map (\<lambda>s. (s, Arg)) rest
      else
        (arg_string,
         (case parse_optional arg_string of
            Inl e \<Rightarrow> Opt (Option_tuple None arg_string None None)
          | Inr None \<Rightarrow> Arg
          | Inr (Some tup) \<Rightarrow> Opt tup))
        # patterns_of rest)"

text \<open>
  Some integer flag is given a value that \<open>to_int\<close> rejects. The value \<^verbatim>\<open>--\<close>
  is left aside: as an explicit argument (\<^verbatim>\<open>--count-1h=--\<close>) the releases of argparse
  differ on it, as said at the head of the parser.
\<close>

definition rejected_int_value ::
  "(string \<Rightarrow> int option) \<Rightarrow> (string \<times> pattern) list \<Rightarrow> bool" where
  "rejected_int_value to_int ps =
     list_ex (\<lambda>flag. list_ex (\<lambda>v. v \<noteq> ''--'' \<and> to_int v = None) (values_for flag ps))
       int_flags"

text \<open>
  In the patterns of a command line every option tuple pairs an option string of the
  parser with its action; the proofs about \<open>consume\<close> need no more of the first pass.
\<close>

definition known_options :: "(string \<times> pattern) list \<Rightarrow> bool" where
  "known_options ps =
     list_all (\<lambda>(s, p).
        case p of
          Opt (Option_tuple (Some a) option_string sep e) \<Rightarrow>
            map_of option_string_actions option_string = Some a
        | _ \<Rightarrow> True) ps"

text \<open>The integer attribute an action stores, as \<^verbatim>\<open>getattr\<close> reads it.\<close>

definition getattr_int :: "action \<Rightarrow> namespace \<Rightarrow> int" where
  "getattr_int a ns =
     (case a of
        Count_1h \<Rightarrow> count_1h ns
      | Count_24h \<Rightarrow> count_24h ns
      | Minutes_1h \<Rightarrow> minutes_1h ns
      | Minutes_24h \<Rightarrow> minutes_24h ns
      | _ \<Rightarrow> 0)"

text \<open>Operating systems for concrete runs: the child ends with a given code, or never starts.\<close>

definition child_exits :: "int \<Rightarrow> string list \<Rightarrow> child" where
  "child_exits n cmd = Exited n"

definition child_not_started :: "string list \<Rightarrow> child" where
  "child_not_started cmd = Not_started"














section \<open>What the script does once the arguments are parsed\<close>

text \<open>The three ways a run continues after a successful parse, one per outcome of the child.\<close>

lemma program_child_ok:
  assumes "parse_args to_int argv = Inr args"
    and "os (cmd_of (payload_of args)) = Exited 0"
  shows "program to_int os argv =
           ([Print_stdout (''Running: '' @ join '' '' (cmd_of (payload_of args))),
             Subprocess_run (cmd_of (payload_of args)), Child_exited 0], 0)"
  using assms by (simp add: program_def main_def subprocess_run_def Let_def)

lemma program_child_failed:
  assumes "parse_args to_int argv = Inr args"
    and "os (cmd_of (payload_of args)) = Exited n" and "n \<noteq> 0"
  shows "program to_int os argv =
           ([Print_stdout (''Running: '' @ join '' '' (cmd_of (payload_of args))),
             Subprocess_run (cmd_of (payload_of args)), Child_exited n,
             Print_stderr (''Seed failed (exit '' @ str_int n @ '').'')], n)"
  using assms by (simp add: program_def main_def subprocess_run_def Let_def)

lemma program_child_not_started:
  assumes "parse_args to_int argv = Inr args"
    and "os (cmd_of (payload_of args)) = Not_started"
  shows "program to_int os argv =
           ([Print_stdout (''Running: '' @ join '' '' (cmd_of (payload_of args))),
             Subprocess_run (cmd_of (payload_of args)),
             Traceback OSError], 1)"
    and "snd (main to_int os argv) = Inl OSError"
  using assms by (simp_all add: program_def main_def subprocess_run_def Let_def)

lemma program_parsed_cases:
  assumes "parse_args to_int argv = Inr args"
  shows "\<exists>tl_events code.
           program to_int os argv =
             (Print_stdout (''Running: '' @ join '' '' (cmd_of (payload_of args)))
              # Subprocess_run (cmd_of (payload_of args)) # tl_events, code)
           \<and> list_all (\<lambda>ev. \<not> is_run ev) tl_events"
proof (cases "os (cmd_of (payload_of args))")
  case (Exited n)
  show ?thesis
  proof (cases "n = 0")
    case True
    with Exited assms show ?thesis by (simp add: program_child_ok is_run_def)
  next
    case False
    with Exited assms show ?thesis by (simp add: program_child_failed is_run_def)
  qed
next
  case Not_started
  with assms show ?thesis by (simp add: program_child_not_started is_run_def)
qed

lemma program_not_parsed:
  "parse_args to_int argv = Inl (Usage_error e) \<Longrightarrow>
     program to_int os argv = ([Argparse_error e], 2)"
  "parse_args to_int argv = Inl Help_exit \<Longrightarrow>
     program to_int os argv = ([Argparse_help], 0)"
  by (simp_all add: program_def main_def)

lemma parse_args_no_flags: "parse_args to_int [] = Inr defaults"
  by (simp add: parse_args_def parse_known_args_def)

lemma running_line:
  "''Running: '' @ join '' '' (cmd_of p) =
     ''Running: npx convex run internal.reminders.seedRemindersTestData '' @ json_dumps p"
  by (simp add: cmd_of_def)

section \<open>Properties of the argument parser\<close>

text \<open>
  The equation of \<open>consume_optional\<close> calls itself, so it is unfolded by hand, once
  where needed.
\<close>

declare consume_optional.simps [simp del]

lemma consume_optional_explicit:
  "a \<noteq> Help \<Longrightarrow>
     consume_optional a os sep (Some e) rest acc = Inr (acc @ [(a, [e])], 0, [])"
  by (subst consume_optional.simps) (simp add: match_argument_def)

lemma consume_optional_following:
  "a \<noteq> Help \<Longrightarrow>
     consume_optional a os sep None rest acc =
       (case rest of
          (v, Arg) # _ \<Rightarrow> Inr (acc @ [(a, [v])], 1, [])
        | _ \<Rightarrow> Inl (Expected_one_argument a))"
  by (subst consume_optional.simps)
     (auto simp: match_argument_def split: list.splits pattern.splits)

lemma consume_optional_first:
  "consume_optional a os sep e rest acc = Inr (ts, n, ex) \<Longrightarrow>
     \<exists>args ts'. ts = acc @ (a, args) # ts'"
proof (induction a os sep e rest acc rule: consume_optional.induct)
  case (1 a option_string sep explicit_arg following action_tuples)
  show ?case
  proof (cases explicit_arg)
    case None
    with "1.prems" show ?thesis
      by (subst (asm) consume_optional.simps) (auto simp: match_argument_def split: sum.splits)
  next
    case (Some e)
    show ?thesis
      using "1.prems" "1.IH" Some
      apply (subst (asm) consume_optional.simps)
      apply (auto split: sum.splits if_splits option.splits)
      apply blast+
      done
  qed
qed

lemma consume_option_success:
  assumes "consume to_int ((s, Opt (Option_tuple (Some b) os sep e)) # rest) ns ex = Inr r"
  shows "b \<noteq> Help \<and>
         (\<exists>v rest' ns1.
            (e = Some v \<and> rest' = rest \<or> e = None \<and> rest = (v, Arg) # rest') \<and>
            take_action to_int b [v] ns = Inr ns1 \<and>
            consume to_int rest' ns1 ex = Inr r)"
proof (cases "b = Help")
  case True
  show ?thesis
  proof (cases "consume_optional Help os sep e rest []")
    case (Inl err)
    with assms True show ?thesis by simp
  next
    case (Inr res)
    obtain ts n ex' where res: "res = (ts, n, ex')" by (cases res) auto
    with Inr consume_optional_first [of Help os sep e rest "[]" ts n ex']
    obtain args ts' where "ts = (Help, args) # ts'" by auto
    with assms True Inr res show ?thesis by (simp add: take_action_def)
  qed
next
  case False
  show ?thesis
  proof (cases e)
    case (Some v)
    with assms False show ?thesis
      by (simp add: consume_optional_explicit split: sum.splits)
  next
    case None
    with assms False show ?thesis
      by (auto simp: consume_optional_following split: sum.splits list.splits pattern.splits)
  qed
qed

text \<open>
  A parse that succeeds goes through the patterns in four kinds of steps: a string that
  goes to the extras, a store option with an explicit argument, a store option with the
  next string as its argument, and the end. Induction over these steps proves what a
  successful parse says about the values.
\<close>

lemma known_options_tail: "known_options (x # ps) \<Longrightarrow> known_options ps"
  by (simp add: known_options_def)

lemma known_options_head:
  "known_options ((s, Opt (Option_tuple (Some b) os sep e)) # ps) \<Longrightarrow>
     map_of option_string_actions os = Some b"
  by (simp add: known_options_def)

lemma consume_success_induct [consumes 2, case_names Nil Skip Explicit Following]:
  assumes ok: "consume to_int ps ns ex = Inr r"
    and known: "known_options ps"
    and nil: "\<And>ns. fst r = ns \<Longrightarrow> P [] ns"
    and skip: "\<And>s pat rest ns.
                 pat = Arg \<or> pat = Dashes \<or> (\<exists>os sep e. pat = Opt (Option_tuple None os sep e)) \<Longrightarrow>
                 P rest ns \<Longrightarrow> P ((s, pat) # rest) ns"
    and explicit: "\<And>s b os sep v rest ns ns1.
                 b \<noteq> Help \<Longrightarrow> map_of option_string_actions os = Some b \<Longrightarrow>
                 take_action to_int b [v] ns = Inr ns1 \<Longrightarrow> P rest ns1 \<Longrightarrow>
                 P ((s, Opt (Option_tuple (Some b) os sep (Some v))) # rest) ns"
    and following: "\<And>s b os sep v rest ns ns1.
                 b \<noteq> Help \<Longrightarrow> map_of option_string_actions os = Some b \<Longrightarrow>
                 take_action to_int b [v] ns = Inr ns1 \<Longrightarrow> P rest ns1 \<Longrightarrow>
                 P ((s, Opt (Option_tuple (Some b) os sep None)) # (v, Arg) # rest) ns"
  shows "P ps ns"
  using ok known
proof (induction "length ps" arbitrary: ps ns ex rule: less_induct)
  case less
  show ?case
  proof (cases ps)
    case Nil
    with less.prems show ?thesis by (auto intro: nil)
  next
    case (Cons x rest)
    obtain s pat where x: "x = (s, pat)" by (cases x) auto
    from less.prems(2) Cons have known_rest: "known_options rest"
      by (auto dest: known_options_tail)
    show ?thesis
    proof (cases pat)
      case Arg
      with less Cons x known_rest show ?thesis by (auto intro!: skip)
    next
      case Dashes
      with less Cons x known_rest show ?thesis by (auto intro!: skip)
    next
      case (Opt t)
      obtain ao os sep e where t: "t = Option_tuple ao os sep e" by (cases t) auto
      show ?thesis
      proof (cases ao)
        case None
        with less Cons x Opt t known_rest show ?thesis by (auto intro!: skip)
      next
        case (Some b)
        from less.prems(2) Cons x Opt t Some
        have os: "map_of option_string_actions os = Some b"
          by (auto dest: known_options_head)
        from less.prems Cons x Opt t Some consume_option_success [of to_int s b os sep e rest ns ex r]
        obtain v rest' ns1 where b: "b \<noteq> Help"
          and shape: "e = Some v \<and> rest' = rest \<or> e = None \<and> rest = (v, Arg) # rest'"
          and act: "take_action to_int b [v] ns = Inr ns1"
          and rec: "consume to_int rest' ns1 ex = Inr r"
          by auto
        from shape Cons have shorter: "length rest' < length ps" by auto
        from shape known_rest have "known_options rest'"
          by (auto dest: known_options_tail)
        with rec shorter have "P rest' ns1" using less.hyps by blast
        with shape b act os Cons x Opt t Some show ?thesis
          by (auto intro: explicit following)
      qed
    qed
  qed
qed

lemma take_action_cases:
  assumes "take_action to_int b [v] ns = Inr ns1"
  shows "b = Team_name \<and> ns1 = ns\<lparr>team_name := v\<rparr> \<or>
         b \<noteq> Team_name \<and> b \<noteq> Help \<and> (\<exists>n. to_int v = Some n \<and> ns1 = setattr_int b n ns)"
  using assms
  by (cases b) (auto simp: take_action_def split: if_splits option.splits)

lemma getattr_setattr:
  "a \<noteq> Team_name \<Longrightarrow> a \<noteq> Help \<Longrightarrow>
     getattr_int a (setattr_int b n ns) = (if a = b then n else getattr_int a ns)"
  by (cases a; cases b) (auto simp: getattr_int_def setattr_int_def)

lemma getattr_team: "getattr_int a (ns\<lparr>team_name := v\<rparr>) = getattr_int a ns"
  by (cases a) (auto simp: getattr_int_def)

lemma team_setattr: "team_name (setattr_int b n ns) = team_name ns"
  by (cases b) (auto simp: setattr_int_def)

lemma option_string_unique:
  "map_of option_string_actions os = Some a \<Longrightarrow> map_of option_string_actions flag = Some a \<Longrightarrow>
     a \<noteq> Help \<Longrightarrow> os = flag"
  by (simp add: option_string_actions_def split: if_splits)

lemma same_flag:
  assumes "map_of option_string_actions os = Some b"
    and "map_of option_string_actions flag = Some a" and "a \<noteq> Help"
  shows "(flag = os) = (a = b)"
  using assms option_string_unique [of os a flag] by auto

lemma consume_parsed_int:
  assumes "consume to_int ps ns ex = Inr r" and "known_options ps"
    and flag: "map_of option_string_actions flag = Some a" and a: "a \<noteq> Help" "a \<noteq> Team_name"
  shows "parsed_int to_int flag ps (getattr_int a ns) = Some (getattr_int a (fst r))"
  using assms(1,2)
proof (induction rule: consume_success_induct)
  case (Nil ns)
  then show ?case by (simp add: parsed_int_def)
next
  case (Skip s pat rest ns)
  then show ?case by (auto simp: parsed_int_def)
next
  case (Explicit s b os sep v rest ns ns1)
  then show ?case
    using a take_action_cases [of to_int b v ns ns1] same_flag [OF Explicit(2) flag a(1)]
    by (auto simp: parsed_int_def getattr_setattr getattr_team)
next
  case (Following s b os sep v rest ns ns1)
  then show ?case
    using a take_action_cases [of to_int b v ns ns1] same_flag [OF Following(2) flag a(1)]
    by (auto simp: parsed_int_def getattr_setattr getattr_team)
qed

lemma consume_parsed_str:
  assumes "consume to_int ps ns ex = Inr r" and "known_options ps"
  shows "parsed_str ''--team-name'' ps (team_name ns) = team_name (fst r)"
  using assms
proof (induction rule: consume_success_induct)
  case (Nil ns)
  then show ?case by (simp add: parsed_str_def)
next
  case (Skip s pat rest ns)
  then show ?case by (auto simp: parsed_str_def)
next
  case (Explicit s b os sep v rest ns ns1)
  have flag: "map_of option_string_actions ''--team-name'' = Some Team_name"
    by (simp add: option_string_actions_def)
  from Explicit show ?case
    using take_action_cases [of to_int b v ns ns1] same_flag [OF Explicit(2) flag]
    by (auto simp: parsed_str_def team_setattr)
next
  case (Following s b os sep v rest ns ns1)
  have flag: "map_of option_string_actions ''--team-name'' = Some Team_name"
    by (simp add: option_string_actions_def)
  from Following show ?case
    using take_action_cases [of to_int b v ns ns1] same_flag [OF Following(2) flag]
    by (auto simp: parsed_str_def team_setattr)
qed

lemma consume_values_converted:
  assumes "consume to_int ps ns ex = Inr r" and "known_options ps"
    and flag: "map_of option_string_actions flag = Some a" and a: "a \<noteq> Help" "a \<noteq> Team_name"
  shows "\<forall>v\<in>set (values_for flag ps). to_int v \<noteq> None"
  using assms(1,2)
proof (induction rule: consume_success_induct)
  case (Nil ns)
  then show ?case by simp
next
  case (Skip s pat rest ns)
  then show ?case by auto
next
  case (Explicit s b os sep v rest ns ns1)
  then show ?case
    using a take_action_cases [of to_int b v ns ns1] same_flag [OF Explicit(2) flag a(1)]
    by auto
next
  case (Following s b os sep v rest ns ns1)
  then show ?case
    using a take_action_cases [of to_int b v ns ns1] same_flag [OF Following(2) flag a(1)]
    by auto
qed

lemma int_flag_action:
  "flag \<in> set int_flags \<Longrightarrow>
     \<exists>a. map_of option_string_actions flag = Some a \<and> a \<noteq> Help \<and> a \<noteq> Team_name"
  by (auto simp: int_flags_def option_string_actions_def)

lemma consume_not_rejected:
  assumes "consume to_int ps ns ex = Inr r" and "known_options ps"
  shows "\<not> rejected_int_value to_int ps"
proof
  assume "rejected_int_value to_int ps"
  then obtain flag v where flag: "flag \<in> set int_flags"
    and v: "v \<in> set (values_for flag ps)" "to_int v = None"
    by (auto simp: rejected_int_value_def list_ex_iff)
  from int_flag_action [OF flag] obtain a where
    "map_of option_string_actions flag = Some a" "a \<noteq> Help" "a \<noteq> Team_name" by blast
  from consume_values_converted [OF assms this] v show False by blast
qed


text \<open>The first pass pairs option strings with their own actions.\<close>

lemma option_string_actions_distinct: "distinct (map fst option_string_actions)"
  by (simp add: option_string_actions_def)

lemma get_option_tuples_known:
  assumes "Option_tuple (Some a) os sep e \<in> set (get_option_tuples s)"
  shows "map_of option_string_actions os = Some a"
proof -
  from assms have "(os, a) \<in> set option_string_actions"
    by (auto simp: get_option_tuples_def Let_def split: if_splits prod.splits)
  then show ?thesis
    using option_string_actions_distinct by simp
qed

lemma parse_optional_known:
  assumes "parse_optional s = Inr (Some (Option_tuple (Some a) os sep e))"
  shows "map_of option_string_actions os = Some a"
proof -
  have hd_in: "hd xs \<in> set xs" if "length xs = Suc 0" for xs :: "option_tuple list"
    using that by (cases xs) auto
  from assms show ?thesis
    by (auto simp: parse_optional_def Let_def split: if_splits option.splits prod.splits)
       (metis hd_in get_option_tuples_known)+
qed

lemma arg_strings_pattern_known:
  "arg_strings_pattern argv = Inr ps \<Longrightarrow> known_options ps"
proof (induction argv arbitrary: ps)
  case Nil
  then show ?case by (simp add: known_options_def)
next
  case (Cons s argv)
  show ?case
  proof (cases "s = ''--''")
    case True
    with Cons.prems show ?thesis
      by (auto simp: known_options_def list_all_iff)
  next
    case False
    with Cons.prems obtain t ps' where t: "parse_optional s = Inr t"
      and ps': "arg_strings_pattern argv = Inr ps'"
      and ps: "ps = (s, (case t of None \<Rightarrow> Arg | Some tup \<Rightarrow> Opt tup)) # ps'"
      by (auto split: sum.splits)
    from Cons.IH [OF ps'] have "known_options ps'" .
    with t ps show ?thesis
      by (auto simp: known_options_def split: option.splits option_tuple.splits
               dest: parse_optional_known)
  qed
qed

text \<open>Flags that are not given have no value; the help exit needs a help option.\<close>

lemma option_strings_Cons:
  "set (option_strings ps) \<subseteq> set (option_strings (x # ps))"
  by (cases "x # ps" rule: option_strings.cases) auto

lemma values_for_absent:
  "flag \<notin> set (option_strings ps) \<Longrightarrow> values_for flag ps = []"
proof (induction flag ps rule: values_for.induct)
  case (1 flag)
  then show ?case by simp
next
  case (2 flag s a option_string sep e rest)
  then show ?case by auto
next
  case (3 flag s a option_string sep v rest)
  then show ?case by auto
qed (use option_strings_Cons in \<open>fastforce+\<close>)

lemma help_option_strings:
  "map_of option_string_actions os = Some Help \<Longrightarrow> os = ''-h'' \<or> os = ''--help''"
  by (simp add: option_string_actions_def split: if_splits)

lemma consume_help_exit:
  "consume to_int ps ns ex = Inl Help_exit \<Longrightarrow> known_options ps \<Longrightarrow>
     ''-h'' \<in> set (option_strings ps) \<or> ''--help'' \<in> set (option_strings ps)"
proof (induction "length ps" arbitrary: ps ns ex rule: less_induct)
  case less
  show ?case
  proof (cases ps)
    case Nil
    with less.prems show ?thesis by simp
  next
    case (Cons x rest)
    obtain s pat where x: "x = (s, pat)" by (cases x) auto
    from less.prems(2) Cons have known_rest: "known_options rest"
      by (auto dest: known_options_tail)
    show ?thesis
    proof (cases pat)
      case Arg
      with less Cons x known_rest show ?thesis by auto
    next
      case Dashes
      with less Cons x known_rest show ?thesis by auto
    next
      case (Opt t)
      obtain ao os sep e where t: "t = Option_tuple ao os sep e" by (cases t) auto
      show ?thesis
      proof (cases ao)
        case None
        with less Cons x Opt t known_rest show ?thesis by auto
      next
        case (Some b)
        show ?thesis
        proof (cases "b = Help")
          case True
          from less.prems(2) Cons x Opt t Some True
          have "os = ''-h'' \<or> os = ''--help''"
            by (auto dest!: known_options_head help_option_strings)
          with Cons x Opt t Some show ?thesis by auto
        next
          case False
          have "\<exists>ns1. consume to_int rest ns1 ex = Inl Help_exit \<or>
                  rest \<noteq> [] \<and> consume to_int (tl rest) ns1 ex = Inl Help_exit"
          proof (cases e)
            case e: (Some v)
            from less.prems Cons x Opt t Some False e
            show ?thesis
              by (auto simp: consume_optional_explicit take_action_def
                       split: sum.splits list.splits if_splits option.splits)
          next
            case e: None
            from less.prems Cons x Opt t Some False e
            show ?thesis
              by (auto simp: consume_optional_following take_action_def
                       split: sum.splits list.splits if_splits option.splits pattern.splits)
          qed
          then obtain rest' ns1 where rec: "consume to_int rest' ns1 ex = Inl Help_exit"
            and shape: "rest' = rest \<or> rest \<noteq> [] \<and> rest' = tl rest" by blast
          from shape Cons have "length rest' < length ps" by (cases rest) auto
          moreover from shape known_rest have "known_options rest'"
            by (cases rest) (auto dest: known_options_tail)
          moreover from shape have "set (option_strings rest') \<subseteq> set (option_strings rest)"
            using option_strings_Cons by (cases rest) auto
          ultimately have "consume to_int rest' ns1 ex = Inl Help_exit"
            "length rest' < length ps" "known_options rest'"
            "set (option_strings rest') \<subseteq> set (option_strings rest)"
            using rec by auto
          with less.hyps [of rest' ns1 ex]
          have "''-h'' \<in> set (option_strings rest) \<or> ''--help'' \<in> set (option_strings rest)"
            by blast
          with Cons x Opt t Some show ?thesis by auto
        qed
      qed
    qed
  qed
qed

lemma parse_args_success:
  assumes "parse_args to_int argv = Inr args"
  shows "\<exists>ps. arg_strings_pattern argv = Inr ps \<and> consume to_int ps defaults [] = Inr (args, [])"
  using assms
  by (auto simp: parse_args_def parse_known_args_def split: sum.splits if_splits)

lemma parse_args_help:
  assumes "parse_args to_int argv = Inl Help_exit"
  shows "\<exists>ps. arg_strings_pattern argv = Inr ps \<and> consume to_int ps defaults [] = Inl Help_exit"
  using assms
  by (auto simp: parse_args_def parse_known_args_def split: sum.splits if_splits)

text \<open>What a successful parse says about the flags and their values.\<close>

lemma flag_actions:
  "map_of option_string_actions ''--count-1h'' = Some Count_1h"
  "map_of option_string_actions ''--count-24h'' = Some Count_24h"
  "map_of option_string_actions ''--minutes-1h'' = Some Minutes_1h"
  "map_of option_string_actions ''--minutes-24h'' = Some Minutes_24h"
  "map_of option_string_actions ''--team-name'' = Some Team_name"
  by (simp_all add: option_string_actions_def)

lemma parse_args_values:
  assumes "parse_args to_int argv = Inr args" and "arg_strings_pattern argv = Inr ps"
  shows "parsed_int to_int ''--count-1h'' ps 2 = Some (count_1h args)"
    and "parsed_int to_int ''--count-24h'' ps 2 = Some (count_24h args)"
    and "parsed_int to_int ''--minutes-1h'' ps 65 = Some (minutes_1h args)"
    and "parsed_int to_int ''--minutes-24h'' ps 1450 = Some (minutes_24h args)"
    and "parsed_str ''--team-name'' ps ''Seed Team'' = team_name args"
proof -
  from parse_args_success [OF assms(1)] assms(2)
  have ok: "consume to_int ps defaults [] = Inr (args, [])" by auto
  have known: "known_options ps" using assms(2) by (rule arg_strings_pattern_known)
  show "parsed_int to_int ''--count-1h'' ps 2 = Some (count_1h args)"
    using consume_parsed_int [OF ok known flag_actions(1)]
    by (simp add: getattr_int_def defaults_def)
  show "parsed_int to_int ''--count-24h'' ps 2 = Some (count_24h args)"
    using consume_parsed_int [OF ok known flag_actions(2)]
    by (simp add: getattr_int_def defaults_def)
  show "parsed_int to_int ''--minutes-1h'' ps 65 = Some (minutes_1h args)"
    using consume_parsed_int [OF ok known flag_actions(3)]
    by (simp add: getattr_int_def defaults_def)
  show "parsed_int to_int ''--minutes-24h'' ps 1450 = Some (minutes_24h args)"
    using consume_parsed_int [OF ok known flag_actions(4)]
    by (simp add: getattr_int_def defaults_def)
  show "parsed_str ''--team-name'' ps ''Seed Team'' = team_name args"
    using consume_parsed_str [OF ok known]
    by (simp add: defaults_def)
qed

text \<open>Command lines with a single flag, written \<^verbatim>\<open>--flag=v\<close> or \<^verbatim>\<open>--flag v\<close>.\<close>

lemma option_string_shape:
  assumes "map_of option_string_actions s = Some a"
  shows "CHR ''='' \<notin> set s" and "s \<noteq> ''--''" and "s \<noteq> []" and "hd s = CHR ''-''"
  using assms by (auto simp: option_string_actions_def split: if_splits)

lemma pattern_single_explicit:
  assumes "map_of option_string_actions flag = Some a"
  shows "arg_strings_pattern [flag @ CHR ''='' # v] =
           Inr [(flag @ CHR ''='' # v, Opt (Option_tuple (Some a) flag (Some ''='') (Some v)))]"
proof -
  note shape = option_string_shape [OF assms]
  have key: "map_of option_string_actions (flag @ CHR ''='' # v) = None"
  proof (cases "map_of option_string_actions (flag @ CHR ''='' # v)")
    case (Some b)
    from option_string_shape(1) [OF this] show ?thesis by simp
  qed simp
  have part: "partition_str CHR ''='' (flag @ CHR ''='' # v) = (flag, ''='', v)"
    using shape(1)
    by (simp add: partition_str_def dropWhile_append3 takeWhile_append2 dropWhile_append
                  takeWhile_eq_all_conv[THEN iffD2] dropWhile_eq_Nil_conv[THEN iffD2])
  have "parse_optional (flag @ CHR ''='' # v) = Inr (Some (Option_tuple (Some a) flag (Some ''='') (Some v)))"
    using assms shape key part by (simp add: parse_optional_def)
  moreover have "flag @ CHR ''='' # v \<noteq> ''--''"
    using shape by (cases flag; cases "tl flag") auto
  ultimately show ?thesis by simp
qed

lemma parse_args_explicit_int:
  assumes "map_of option_string_actions flag = Some a" and "a \<noteq> Help" and "a \<noteq> Team_name"
    and "to_int v = Some n"
  shows "parse_args to_int [flag @ CHR ''='' # v] = Inr (setattr_int a n defaults)"
  using assms
  by (simp add: parse_args_def parse_known_args_def pattern_single_explicit
                consume_optional_explicit take_action_def del: arg_strings_pattern.simps)


lemma pattern_exact:
  assumes "map_of option_string_actions flag = Some a"
  shows "parse_optional flag = Inr (Some (Option_tuple (Some a) flag None None))"
  using assms option_string_shape [OF assms] by (simp add: parse_optional_def)

lemma pattern_following:
  assumes "map_of option_string_actions flag = Some a" and "parse_optional v = Inr None"
  shows "arg_strings_pattern [flag, v] =
           Inr [(flag, Opt (Option_tuple (Some a) flag None None)), (v, Arg)]"
proof -
  have "v \<noteq> ''--''"
  proof
    assume "v = ''--''"
    then have "parse_optional v \<noteq> Inr None"
      by (simp add: parse_optional_def option_string_actions_def partition_str_def
                    get_option_tuples_def)
    with assms(2) show False by simp
  qed
  with assms option_string_shape(2) [OF assms(1)] show ?thesis
    by (simp add: pattern_exact)
qed

lemma parse_args_following_int:
  assumes "map_of option_string_actions flag = Some a" and "a \<noteq> Help" and "a \<noteq> Team_name"
    and "to_int v = Some n" and "parse_optional v = Inr None"
  shows "parse_args to_int [flag, v] = Inr (setattr_int a n defaults)"
  using assms
  by (simp add: parse_args_def parse_known_args_def pattern_following
                consume_optional_following take_action_def del: arg_strings_pattern.simps)

text \<open>Decimal literals, with or without a minus sign, are read as arguments.\<close>

declare str_nat.simps [simp del]

lemma digit_char_is_digit: "d < 10 \<Longrightarrow> is_digit (digit_char d)"
proof -
  assume "d < 10"
  then have "d \<in> {0, 1, 2, 3, 4, 5, 6, 7, 8, 9}" by auto
  then show ?thesis
    by (auto simp: is_digit_def digit_char_def)
qed

lemma str_nat_digits: "str_nat n \<noteq> [] \<and> list_all is_digit (str_nat n)"
proof (induction n rule: str_nat.induct)
  case (1 n)
  show ?case
  proof (cases "n < 10")
    case True
    then show ?thesis by (subst str_nat.simps, subst str_nat.simps) (simp add: digit_char_is_digit)
  next
    case False
    with 1 show ?thesis
      by (subst str_nat.simps, subst (2) str_nat.simps) (simp add: digit_char_is_digit)
  qed
qed

lemma last_digit_not_newline:
  assumes "ds \<noteq> []" and "list_all is_digit ds"
  shows "last ds \<noteq> CHR 0x0A"
proof -
  from assms(1) have "last ds \<in> set ds" by simp
  with assms(2) have "is_digit (last ds)" by (simp add: list_all_iff)
  then show ?thesis by (auto simp: is_digit_def)
qed

lemma negative_digits_match:
  assumes "ds \<noteq> []" and "list_all is_digit ds"
  shows "negative_number_matcher (CHR ''-'' # ds)"
proof -
  have "dropWhile is_digit ds = []"
    using assms(2) by (simp add: list_all_iff)
  with assms last_digit_not_newline [OF assms] show ?thesis
    by (simp add: negative_number_matcher_def)
qed

lemma digit_not_special:
  assumes "is_digit d"
  shows "d \<noteq> CHR ''-''" and "d \<noteq> CHR ''h''" and "d \<noteq> CHR ''=''" and "d \<noteq> CHR 0x0A"
  using assms by (auto simp: is_digit_def)

lemma digits_are_argument:
  assumes "ds \<noteq> []" and "list_all is_digit ds"
  shows "parse_optional ds = Inr None" and "parse_optional (CHR ''-'' # ds) = Inr None"
proof -
  obtain d ds' where ds: "ds = d # ds'" using assms(1) by (cases ds) auto
  with assms(2) have "is_digit d" by simp
  then have d_neq: "d \<noteq> CHR ''-''" "d \<noteq> CHR ''h''"
    by (rule digit_not_special)+
  from d_neq ds show "parse_optional ds = Inr None"
    by (simp add: parse_optional_def)
  have no_eq: "\<forall>x\<in>set ds. x \<noteq> CHR ''=''"
    using assms(2) digit_not_special(3) by (auto simp: list_all_iff)
  have key: "map_of option_string_actions (CHR ''-'' # ds) = None"
    using d_neq ds by (simp add: option_string_actions_def)
  have part: "partition_str CHR ''='' (CHR ''-'' # ds) = (CHR ''-'' # ds, [], [])"
    using no_eq by (simp add: partition_str_def dropWhile_eq_Nil_conv[THEN iffD2])
  have tuples: "get_option_tuples (CHR ''-'' # ds) = []"
    using d_neq ds by (simp add: get_option_tuples_def option_string_actions_def)
  from key part tuples negative_digits_match [OF assms] ds
  show "parse_optional (CHR ''-'' # ds) = Inr None"
    by (simp add: parse_optional_def)
qed

lemma str_int_is_argument: "parse_optional (str_int m) = Inr None"
proof (cases "m < 0")
  case True
  with digits_are_argument(2) [of "str_nat (nat (- m))"] str_nat_digits [of "nat (- m)"]
  show ?thesis by (simp add: str_int_def)
next
  case False
  with digits_are_argument(1) [of "str_nat (nat m)"] str_nat_digits [of "nat m"]
  show ?thesis by (simp add: str_int_def)
qed

lemma payload_for_int_flag:
  assumes "parse_args to_int argv = Inr (setattr_int a n defaults)"
  shows "payload_for to_int argv =
           Inr [(''count1h'', JInt (if a = Count_1h then n else 2)),
                (''count24h'', JInt (if a = Count_24h then n else 2)),
                (''minutesFromNowFor1h'', JInt (if a = Minutes_1h then n else 65)),
                (''minutesFromNowFor24h'', JInt (if a = Minutes_24h then n else 1450)),
                (''reuseTeamName'', JStr ''Seed Team'')]"
  using assms
  by (cases a) (simp_all add: payload_for_def payload_of_def setattr_int_def defaults_def)

section \<open>Reading the serialised payload back\<close>





































text \<open>The patterns of a command line that passes the first pass.\<close>

lemma patterns_of_first_pass:
  "arg_strings_pattern argv = Inr ps \<Longrightarrow> patterns_of argv = ps"
proof (induction argv arbitrary: ps)
  case Nil
  then show ?case by simp
next
  case (Cons s argv)
  show ?case
  proof (cases "s = ''--''")
    case True
    with Cons.prems show ?thesis by auto
  next
    case False
    with Cons.prems obtain t ps' where t: "parse_optional s = Inr t"
      and ps': "arg_strings_pattern argv = Inr ps'"
      and ps: "ps = (s, (case t of None \<Rightarrow> Arg | Some tup \<Rightarrow> Opt tup)) # ps'"
      by (auto split: sum.splits)
    from Cons.IH [OF ps'] t ps False show ?thesis
      by (simp split: option.splits)
  qed
qed

section \<open>The claims\<close>

text \<open>
  C1. Whenever the command line parses, the payload has the five keys \<^verbatim>\<open>count1h\<close>,
  \<^verbatim>\<open>count24h\<close>, \<^verbatim>\<open>minutesFromNowFor1h\<close>, \<^verbatim>\<open>minutesFromNowFor24h\<close> and
  \<^verbatim>\<open>reuseTeamName\<close>, in this order, and the value under each key is the value parsed
  for \<^verbatim>\<open>--count-1h\<close>, \<^verbatim>\<open>--count-24h\<close>, \<^verbatim>\<open>--minutes-1h\<close>, \<^verbatim>\<open>--minutes-24h\<close> and
  \<^verbatim>\<open>--team-name\<close> respectively: for an integer flag what \<^verbatim>\<open>int\<close> returns on the last
  value given, for the team name the last string given itself, and the default of a flag
  that is not given. Nothing is applied to a value between the parser and the payload.
\<close>

theorem payload_identity_C1:
  assumes "parse_args to_int argv = Inr args" and "arg_strings_pattern argv = Inr ps"
  shows "\<exists>c1 c24 m1 m24.
           parsed_int to_int ''--count-1h'' ps 2 = Some c1 \<and>
           parsed_int to_int ''--count-24h'' ps 2 = Some c24 \<and>
           parsed_int to_int ''--minutes-1h'' ps 65 = Some m1 \<and>
           parsed_int to_int ''--minutes-24h'' ps 1450 = Some m24 \<and>
           payload_of args =
             [(''count1h'', JInt c1),
              (''count24h'', JInt c24),
              (''minutesFromNowFor1h'', JInt m1),
              (''minutesFromNowFor24h'', JInt m24),
              (''reuseTeamName'', JStr (parsed_str ''--team-name'' ps ''Seed Team''))]"
  using parse_args_values [OF assms] by (simp add: payload_of_def)

theorem payload_identity_C1_witness:
  "parse_args int_literal
     [''--count-1h'', ''5'', ''--count-24h=-7'', ''--minutes-1'', ''70'',
      ''--minutes-24h'', ''0'', ''--team-name'', ''A Team''] =
     Inr \<lparr>count_1h = 5, count_24h = - 7, minutes_1h = 70, minutes_24h = 0,
          team_name = ''A Team''\<rparr> \<and>
   arg_strings_pattern
     [''--count-1h'', ''5'', ''--count-24h=-7'', ''--minutes-1'', ''70'',
      ''--minutes-24h'', ''0'', ''--team-name'', ''A Team''] =
     Inr [(''--count-1h'', Opt (Option_tuple (Some Count_1h) ''--count-1h'' None None)),
          (''5'', Arg),
          (''--count-24h=-7'',
           Opt (Option_tuple (Some Count_24h) ''--count-24h'' (Some ''='') (Some ''-7''))),
          (''--minutes-1'', Opt (Option_tuple (Some Minutes_1h) ''--minutes-1h'' None None)),
          (''70'', Arg),
          (''--minutes-24h'', Opt (Option_tuple (Some Minutes_24h) ''--minutes-24h'' None None)),
          (''0'', Arg),
          (''--team-name'', Opt (Option_tuple (Some Team_name) ''--team-name'' None None)),
          (''A Team'', Arg)] \<and>
   payload_of \<lparr>count_1h = 5, count_24h = - 7, minutes_1h = 70, minutes_24h = 0,
               team_name = ''A Team''\<rparr> =
     [(''count1h'', JInt 5), (''count24h'', JInt (- 7)),
      (''minutesFromNowFor1h'', JInt 70), (''minutesFromNowFor24h'', JInt 0),
      (''reuseTeamName'', JStr ''A Team'')]"
  (is "?parse = Inr ?args \<and> ?pattern = Inr ?ps \<and> _")
proof -
  have parsed: "?parse = Inr ?args" by code_simp
  have pattern: "?pattern = Inr ?ps" by code_simp
  have "parsed_int int_literal ''--count-1h'' ?ps 2 = Some 5"
    "parsed_int int_literal ''--count-24h'' ?ps 2 = Some (- 7)"
    "parsed_int int_literal ''--minutes-1h'' ?ps 65 = Some 70"
    "parsed_int int_literal ''--minutes-24h'' ?ps 1450 = Some 0"
    "parsed_str ''--team-name'' ?ps ''Seed Team'' = ''A Team''"
    by code_simp+
  with payload_identity_C1 [OF parsed pattern] parsed pattern show ?thesis
    by simp
qed

text \<open>
  C2. When the arguments parse and the child ends with a return code \<open>n\<close> other than
  zero, the program exits with \<open>n\<close>, writes exactly one message to standard error,
  \<^verbatim>\<open>Seed failed (exit n).\<close>, and has called \<^verbatim>\<open>subprocess.run\<close> once: nothing is retried.
\<close>

theorem child_failure_C2:
  assumes "parse_args to_int argv = Inr args"
    and "os (cmd_of (payload_of args)) = Exited n" and "n \<noteq> 0"
  shows "snd (program to_int os argv) = n \<and>
         filter on_stderr (fst (program to_int os argv)) =
           [Print_stderr (''Seed failed (exit '' @ str_int n @ '').'')] \<and>
         filter is_run (fst (program to_int os argv)) =
           [Subprocess_run (cmd_of (payload_of args))]"
  using assms program_child_failed [of to_int argv args os n]
  by (simp add: on_stderr_def is_run_def)

theorem child_failure_C2_witness:
  "parse_args int_literal [] = Inr defaults \<and>
   child_exits 3 (cmd_of (payload_of defaults)) = Exited 3 \<and> (3::int) \<noteq> 0 \<and>
   snd (program int_literal (child_exits 3) []) = 3 \<and>
   filter on_stderr (fst (program int_literal (child_exits 3) [])) =
     [Print_stderr ''Seed failed (exit 3).'']"
proof -
  have digits: "str_int 3 = ''3''"
    by code_simp
  show ?thesis
    using child_failure_C2 [OF parse_args_no_flags, of "child_exits 3" 3 int_literal]
    by (simp add: parse_args_no_flags digits child_exits_def)
qed

text \<open>
  C3. Whenever the arguments parse, the command is exactly \<^verbatim>\<open>npx\<close>, \<^verbatim>\<open>convex\<close>,
  \<^verbatim>\<open>run\<close>, \<^verbatim>\<open>internal.reminders.seedRemindersTestData\<close> and the serialised payload as
  the last element, and the first thing the program does is print that command line,
  joined with spaces after \<^verbatim>\<open>Running:\<close>, to standard output; running the command comes
  second.
\<close>

theorem command_line_C3:
  assumes "parse_args to_int argv = Inr args"
  shows "take 2 (fst (program to_int os argv)) =
           [Print_stdout
              (''Running: npx convex run internal.reminders.seedRemindersTestData ''
               @ json_dumps (payload_of args)),
            Subprocess_run
              [''npx'', ''convex'', ''run'', ''internal.reminders.seedRemindersTestData'',
               json_dumps (payload_of args)]]"
proof -
  obtain tl_events code where
    "program to_int os argv =
       (Print_stdout (''Running: '' @ join '' '' (cmd_of (payload_of args)))
        # Subprocess_run (cmd_of (payload_of args)) # tl_events, code)"
    using program_parsed_cases [OF assms] by blast
  then show ?thesis
    by (simp add: running_line) (simp add: cmd_of_def)
qed

theorem command_line_C3_witness:
  "parse_args int_literal [] = Inr defaults \<and>
   take 2 (fst (program int_literal (child_exits 0) [])) =
     [Print_stdout
        (''Running: npx convex run internal.reminders.seedRemindersTestData ''
         @ json_dumps (payload_of defaults)),
      Subprocess_run
        [''npx'', ''convex'', ''run'', ''internal.reminders.seedRemindersTestData'',
         json_dumps (payload_of defaults)]]"
  using command_line_C3 [OF parse_args_no_flags, of int_literal "child_exits 0"]
  by (simp add: parse_args_no_flags)

text \<open>
  C4. Without any flag the payload is \<^verbatim>\<open>count1h\<close> 2, \<^verbatim>\<open>count24h\<close> 2,
  \<^verbatim>\<open>minutesFromNowFor1h\<close> 65, \<^verbatim>\<open>minutesFromNowFor24h\<close> 1450 and \<^verbatim>\<open>reuseTeamName\<close>
  \<^verbatim>\<open>Seed Team\<close>. On any command line that parses, each flag that is not given has
  its default in the payload, whatever the other flags are.
\<close>

theorem defaults_C4:
  "payload_for to_int [] =
     Inr [(''count1h'', JInt 2), (''count24h'', JInt 2),
          (''minutesFromNowFor1h'', JInt 65), (''minutesFromNowFor24h'', JInt 1450),
          (''reuseTeamName'', JStr ''Seed Team'')] \<and>
   (arg_strings_pattern argv = Inr ps \<and> payload_for to_int argv = Inr payload \<longrightarrow>
      (''--count-1h'' \<notin> set (option_strings ps) \<longrightarrow>
         map_of payload ''count1h'' = Some (JInt 2)) \<and>
      (''--count-24h'' \<notin> set (option_strings ps) \<longrightarrow>
         map_of payload ''count24h'' = Some (JInt 2)) \<and>
      (''--minutes-1h'' \<notin> set (option_strings ps) \<longrightarrow>
         map_of payload ''minutesFromNowFor1h'' = Some (JInt 65)) \<and>
      (''--minutes-24h'' \<notin> set (option_strings ps) \<longrightarrow>
         map_of payload ''minutesFromNowFor24h'' = Some (JInt 1450)) \<and>
      (''--team-name'' \<notin> set (option_strings ps) \<longrightarrow>
         map_of payload ''reuseTeamName'' = Some (JStr ''Seed Team'')))"
proof -
  have no_flags: "payload_for to_int [] =
     Inr [(''count1h'', JInt 2), (''count24h'', JInt 2),
          (''minutesFromNowFor1h'', JInt 65), (''minutesFromNowFor24h'', JInt 1450),
          (''reuseTeamName'', JStr ''Seed Team'')]"
    by (simp add: payload_for_def parse_args_no_flags payload_of_def defaults_def)
  have absent:
    "(''--count-1h'' \<notin> set (option_strings ps) \<longrightarrow>
         map_of payload ''count1h'' = Some (JInt 2)) \<and>
     (''--count-24h'' \<notin> set (option_strings ps) \<longrightarrow>
         map_of payload ''count24h'' = Some (JInt 2)) \<and>
     (''--minutes-1h'' \<notin> set (option_strings ps) \<longrightarrow>
         map_of payload ''minutesFromNowFor1h'' = Some (JInt 65)) \<and>
     (''--minutes-24h'' \<notin> set (option_strings ps) \<longrightarrow>
         map_of payload ''minutesFromNowFor24h'' = Some (JInt 1450)) \<and>
     (''--team-name'' \<notin> set (option_strings ps) \<longrightarrow>
         map_of payload ''reuseTeamName'' = Some (JStr ''Seed Team''))"
    if pattern: "arg_strings_pattern argv = Inr ps"
      and built: "payload_for to_int argv = Inr payload"
  proof -
    from built obtain args where args: "parse_args to_int argv = Inr args"
      and payload: "payload = payload_of args"
      by (auto simp: payload_for_def split: sum.splits)
    note vals = parse_args_values [OF args pattern]
    have "''--count-1h'' \<notin> set (option_strings ps) \<Longrightarrow> count_1h args = 2"
      using vals(1) by (simp add: parsed_int_def values_for_absent)
    moreover have "''--count-24h'' \<notin> set (option_strings ps) \<Longrightarrow> count_24h args = 2"
      using vals(2) by (simp add: parsed_int_def values_for_absent)
    moreover have "''--minutes-1h'' \<notin> set (option_strings ps) \<Longrightarrow> minutes_1h args = 65"
      using vals(3) by (simp add: parsed_int_def values_for_absent)
    moreover have "''--minutes-24h'' \<notin> set (option_strings ps) \<Longrightarrow> minutes_24h args = 1450"
      using vals(4) by (simp add: parsed_int_def values_for_absent)
    moreover have "''--team-name'' \<notin> set (option_strings ps) \<Longrightarrow> team_name args = ''Seed Team''"
      using vals(5) by (simp add: parsed_str_def values_for_absent)
    ultimately show ?thesis
      by (simp add: payload payload_of_def)
  qed
  from no_flags absent show ?thesis by blast
qed

theorem defaults_C4_witness:
  "arg_strings_pattern [''--count-1h'', ''5''] =
     Inr [(''--count-1h'', Opt (Option_tuple (Some Count_1h) ''--count-1h'' None None)),
          (''5'', Arg)] \<and>
   payload_for int_literal [''--count-1h'', ''5''] =
     Inr [(''count1h'', JInt 5), (''count24h'', JInt 2),
          (''minutesFromNowFor1h'', JInt 65), (''minutesFromNowFor24h'', JInt 1450),
          (''reuseTeamName'', JStr ''Seed Team'')] \<and>
   ''--count-24h'' \<notin> set (option_strings
     [(''--count-1h'', Opt (Option_tuple (Some Count_1h) ''--count-1h'' None None)),
      (''5'', Arg)]) \<and>
   arg_strings_pattern [''--team-name=x''] =
     Inr [(''--team-name=x'',
           Opt (Option_tuple (Some Team_name) ''--team-name'' (Some ''='') (Some ''x'')))] \<and>
   payload_for int_literal [''--team-name=x''] =
     Inr [(''count1h'', JInt 2), (''count24h'', JInt 2),
          (''minutesFromNowFor1h'', JInt 65), (''minutesFromNowFor24h'', JInt 1450),
          (''reuseTeamName'', JStr ''x'')] \<and>
   ''--count-1h'' \<notin> set (option_strings
     [(''--team-name=x'',
       Opt (Option_tuple (Some Team_name) ''--team-name'' (Some ''='') (Some ''x'')))])"
  (is "?pat1 = Inr ?ps1 \<and> ?pay1 = Inr ?p1 \<and> ?absent1 \<and> ?pat2 = Inr ?ps2 \<and> ?pay2 = Inr ?p2 \<and> ?absent2")
proof -
  have pat1: "?pat1 = Inr ?ps1" and pay1: "?pay1 = Inr ?p1"
    and pat2: "?pat2 = Inr ?ps2" and pay2: "?pay2 = Inr ?p2"
    by code_simp+
  have absent: "?absent1" "?absent2" by simp_all
  from defaults_C4 [of int_literal "[''--count-1h'', ''5'']" ?ps1 ?p1]
       defaults_C4 [of int_literal "[''--team-name=x'']" ?ps2 ?p2]
       pat1 pay1 pat2 pay2 absent
  show ?thesis by simp
qed

text \<open>
  C5, as the code has it. When some integer flag is given a value, other than the bare
  \<^verbatim>\<open>--\<close>, that \<^verbatim>\<open>int\<close> rejects, the parse never succeeds, so nothing is run: the
  program ends inside argparse, with a usage error on standard error and exit status 2,
  or, and only if a help option is on the command line as well, with the help text and
  exit status 0. This holds for every command line, also one that argparse refuses in
  its first pass.
\<close>

theorem rejected_integer_C5:
  assumes "rejected_int_value to_int (patterns_of argv)"
  shows "(\<exists>e. program to_int os argv = ([Argparse_error e], 2)) \<or>
         ((''-h'' \<in> set (option_strings (patterns_of argv)) \<or>
           ''--help'' \<in> set (option_strings (patterns_of argv))) \<and>
          program to_int os argv = ([Argparse_help], 0))"
proof (cases "arg_strings_pattern argv")
  case (Inl e)
  then have "parse_args to_int argv = Inl (Usage_error e)"
    by (simp add: parse_args_def parse_known_args_def)
  then show ?thesis by (simp add: program_not_parsed)
next
  case (Inr ps)
  note ps = patterns_of_first_pass [OF Inr]
  show ?thesis
  proof (cases "parse_args to_int argv")
    case args: (Inr args)
    from parse_args_success [OF this] Inr
    have "consume to_int ps defaults [] = Inr (args, [])" by auto
    from consume_not_rejected [OF this arg_strings_pattern_known [OF Inr]] assms ps
    show ?thesis by simp
  next
    case (Inl x)
    show ?thesis
    proof (cases x)
      case (Usage_error e)
      with Inl show ?thesis by (simp add: program_not_parsed)
    next
      case Help_exit
      with Inl parse_args_help [of to_int argv] Inr
      have "consume to_int ps defaults [] = Inl Help_exit" by auto
      from consume_help_exit [OF this arg_strings_pattern_known [OF Inr]]
        Inl Help_exit ps
      show ?thesis by (simp add: program_not_parsed)
    qed
  qed
qed

theorem rejected_integer_C5_witness:
  "rejected_int_value int_literal (patterns_of [''--count-1h'', ''abc'']) \<and>
   program int_literal (child_exits 0) [''--count-1h'', ''abc''] =
     ([Argparse_error (Invalid_int_value Count_1h ''abc'')], 2) \<and>
   rejected_int_value int_literal (patterns_of [''--minutes-1h=1.5'', ''--count'', ''3'']) \<and>
   program int_literal (child_exits 0) [''--minutes-1h=1.5'', ''--count'', ''3''] =
     ([Argparse_error (Ambiguous_option ''--count'' [''--count-1h'', ''--count-24h''])], 2)"
  (is "?rej1 \<and> ?run1 \<and> ?rej2 \<and> ?run2")
proof -
  have rej1: "?rej1" and run1: "?run1" and rej2: "?rej2" and run2: "?run2" by code_simp+
  from rejected_integer_C5 [OF rej1, of "child_exits 0"]
       rejected_integer_C5 [OF rej2, of "child_exits 0"] rej1 run1 rej2 run2
  show ?thesis by simp
qed

text \<open>
  The claim itself promises a non-zero exit status for every such command line. With
  \<^verbatim>\<open>--help\<close> first, argparse prints the help and exits with 0 before it looks at
  the value of \<^verbatim>\<open>--count-1h\<close>.
\<close>

theorem rejected_integer_C5_counterexample:
  "rejected_int_value int_literal (patterns_of [''--help'', ''--count-1h'', ''abc'']) \<and>
   program int_literal (child_exits 0) [''--help'', ''--count-1h'', ''abc''] =
     ([Argparse_help], 0)"
  by code_simp

text \<open>
  C6. When the arguments parse and the command cannot be started, \<^verbatim>\<open>subprocess.run\<close>
  raises an \<^verbatim>\<open>OSError\<close> that line 53 does not catch: \<open>main\<close> ends with that
  exception instead of returning a child's code, the interpreter reports it on standard
  error (the only thing written there) and the exit status is 1, the interpreter's status
  for an uncaught exception.
\<close>

theorem launch_failure_C6:
  assumes "parse_args to_int argv = Inr args"
    and "os (cmd_of (payload_of args)) = Not_started"
  shows "snd (main to_int os argv) = Inl OSError \<and>
         snd (program to_int os argv) = 1 \<and>
         filter on_stderr (fst (program to_int os argv)) = [Traceback OSError]"
  using assms program_child_not_started [of to_int argv args os]
  by (simp add: on_stderr_def)

theorem launch_failure_C6_witness:
  "parse_args int_literal [] = Inr defaults \<and>
   child_not_started (cmd_of (payload_of defaults)) = Not_started \<and>
   snd (main int_literal child_not_started []) = Inl OSError \<and>
   snd (program int_literal child_not_started []) = 1 \<and>
   filter on_stderr (fst (program int_literal child_not_started [])) = [Traceback OSError]"
  using launch_failure_C6 [OF parse_args_no_flags, of child_not_started int_literal]
  by (simp add: parse_args_no_flags child_not_started_def)

text \<open>
  C7. When the arguments parse and the child ends with return code 0, the program exits
  with 0 and nothing is written to standard error.
\<close>

theorem child_success_C7:
  assumes "parse_args to_int argv = Inr args"
    and "os (cmd_of (payload_of args)) = Exited 0"
  shows "snd (program to_int os argv) = 0 \<and>
         filter on_stderr (fst (program to_int os argv)) = []"
  using assms program_child_ok [of to_int argv args os]
  by (simp add: on_stderr_def)

theorem child_success_C7_witness:
  "parse_args int_literal [] = Inr defaults \<and>
   child_exits 0 (cmd_of (payload_of defaults)) = Exited 0 \<and>
   snd (program int_literal (child_exits 0) []) = 0 \<and>
   filter on_stderr (fst (program int_literal (child_exits 0) [])) = []"
  using child_success_C7 [OF parse_args_no_flags, of "child_exits 0" int_literal]
  by (simp add: parse_args_no_flags child_exits_def)

text \<open>
  C8, as the code has it. On a command line that parses the program prints the command,
  calls \<^verbatim>\<open>subprocess.run\<close> once, and the next thing that happens is the end of the
  child the call started: the program waits for it and does nothing in between. What
  follows depends on how the child ended: nothing after return code 0, the diagnostic
  after another code. When the command cannot be started the call is followed by the
  traceback. There is no second call, so no second child; and a command line that
  ends in a usage error or in the help leads to no call at all.
\<close>

theorem one_child_C8:
  "(parse_args to_int argv = Inr args \<longrightarrow>
      fst (program to_int os argv) =
        [Print_stdout (''Running: '' @ join '' '' (cmd_of (payload_of args))),
         Subprocess_run (cmd_of (payload_of args))]
        @ (case os (cmd_of (payload_of args)) of
             Exited returncode \<Rightarrow>
               Child_exited returncode #
               (if returncode = 0 then []
                else [Print_stderr (''Seed failed (exit '' @ str_int returncode @ '').'')])
           | Not_started \<Rightarrow> [Traceback OSError]) \<and>
      filter is_run (fst (program to_int os argv)) =
        [Subprocess_run (cmd_of (payload_of args))]) \<and>
   (parse_args to_int argv = Inl x \<longrightarrow>
      filter is_run (fst (program to_int os argv)) = [])"
proof (intro conjI impI)
  assume parsed: "parse_args to_int argv = Inr args"
  show "fst (program to_int os argv) =
        [Print_stdout (''Running: '' @ join '' '' (cmd_of (payload_of args))),
         Subprocess_run (cmd_of (payload_of args))]
        @ (case os (cmd_of (payload_of args)) of
             Exited returncode \<Rightarrow>
               Child_exited returncode #
               (if returncode = 0 then []
                else [Print_stderr (''Seed failed (exit '' @ str_int returncode @ '').'')])
           | Not_started \<Rightarrow> [Traceback OSError])"
  proof (cases "os (cmd_of (payload_of args))")
    case (Exited n)
    with parsed show ?thesis
      by (cases "n = 0") (simp_all add: program_child_ok program_child_failed)
  next
    case Not_started
    with parsed show ?thesis by (simp add: program_child_not_started)
  qed
  then show "filter is_run (fst (program to_int os argv)) =
        [Subprocess_run (cmd_of (payload_of args))]"
    by (simp add: is_run_def split: child.splits)
next
  assume "parse_args to_int argv = Inl x"
  then show "filter is_run (fst (program to_int os argv)) = []"
    by (cases x) (simp_all add: program_not_parsed is_run_def)
qed

theorem one_child_C8_witness:
  "parse_args int_literal [] = Inr defaults \<and>
   fst (program int_literal (child_exits 3) []) =
     [Print_stdout (''Running: '' @ join '' '' (cmd_of (payload_of defaults))),
      Subprocess_run (cmd_of (payload_of defaults)),
      Child_exited 3,
      Print_stderr ''Seed failed (exit 3).''] \<and>
   parse_args int_literal [''--count-1h'', ''abc''] =
     Inl (Usage_error (Invalid_int_value Count_1h ''abc'')) \<and>
   filter is_run (fst (program int_literal (child_exits 3) [''--count-1h'', ''abc''])) = []"
proof -
  have bad: "parse_args int_literal [''--count-1h'', ''abc''] =
     Inl (Usage_error (Invalid_int_value Count_1h ''abc''))" by code_simp
  have digits: "str_int 3 = ''3''" by code_simp
  from one_child_C8 [of int_literal "[]" defaults "child_exits 3"]
       one_child_C8 [of int_literal "[''--count-1h'', ''abc'']" _ "child_exits 3"
                        "Usage_error (Invalid_int_value Count_1h ''abc'')"]
       bad parse_args_no_flags [of int_literal] digits
  show ?thesis by (simp add: child_exits_def)
qed

text \<open>
  The claim itself says that every invocation starts exactly one child. An invocation
  with a value that is not an integer starts none.
\<close>

theorem one_child_C8_counterexample:
  "length (filter is_run
             (fst (program int_literal (child_exits 0) [''--count-1h'', ''abc'']))) = 0"
  by code_simp



text \<open>
  C10. No range is checked. Every string \<open>v\<close> that \<^verbatim>\<open>int\<close> accepts, with value
  \<open>n\<close>, is accepted for each of the four integer flags and \<open>n\<close> is the value in
  the payload: always when given as \<^verbatim>\<open>--flag=v\<close>, and when given as the next string
  provided argparse reads \<open>v\<close> as an argument and not as an option. The decimal
  numeral of every integer, zero and the negative ones included, is read as an argument.
\<close>

theorem no_range_check_C10:
  assumes "to_int v = Some n"
  shows "payload_for to_int [''--count-1h='' @ v] =
           Inr [(''count1h'', JInt n), (''count24h'', JInt 2),
                (''minutesFromNowFor1h'', JInt 65), (''minutesFromNowFor24h'', JInt 1450),
                (''reuseTeamName'', JStr ''Seed Team'')] \<and>
         payload_for to_int [''--count-24h='' @ v] =
           Inr [(''count1h'', JInt 2), (''count24h'', JInt n),
                (''minutesFromNowFor1h'', JInt 65), (''minutesFromNowFor24h'', JInt 1450),
                (''reuseTeamName'', JStr ''Seed Team'')] \<and>
         payload_for to_int [''--minutes-1h='' @ v] =
           Inr [(''count1h'', JInt 2), (''count24h'', JInt 2),
                (''minutesFromNowFor1h'', JInt n), (''minutesFromNowFor24h'', JInt 1450),
                (''reuseTeamName'', JStr ''Seed Team'')] \<and>
         payload_for to_int [''--minutes-24h='' @ v] =
           Inr [(''count1h'', JInt 2), (''count24h'', JInt 2),
                (''minutesFromNowFor1h'', JInt 65), (''minutesFromNowFor24h'', JInt n),
                (''reuseTeamName'', JStr ''Seed Team'')] \<and>
         (parse_optional v = Inr None \<longrightarrow>
            payload_for to_int [''--count-1h'', v] =
              Inr [(''count1h'', JInt n), (''count24h'', JInt 2),
                   (''minutesFromNowFor1h'', JInt 65), (''minutesFromNowFor24h'', JInt 1450),
                   (''reuseTeamName'', JStr ''Seed Team'')] \<and>
            payload_for to_int [''--count-24h'', v] =
              Inr [(''count1h'', JInt 2), (''count24h'', JInt n),
                   (''minutesFromNowFor1h'', JInt 65), (''minutesFromNowFor24h'', JInt 1450),
                   (''reuseTeamName'', JStr ''Seed Team'')] \<and>
            payload_for to_int [''--minutes-1h'', v] =
              Inr [(''count1h'', JInt 2), (''count24h'', JInt 2),
                   (''minutesFromNowFor1h'', JInt n), (''minutesFromNowFor24h'', JInt 1450),
                   (''reuseTeamName'', JStr ''Seed Team'')] \<and>
            payload_for to_int [''--minutes-24h'', v] =
              Inr [(''count1h'', JInt 2), (''count24h'', JInt 2),
                   (''minutesFromNowFor1h'', JInt 65), (''minutesFromNowFor24h'', JInt n),
                   (''reuseTeamName'', JStr ''Seed Team'')]) \<and>
         parse_optional (str_int m) = Inr None"
proof -
  have explicit: "payload_for to_int [flag @ CHR ''='' # v] =
           Inr [(''count1h'', JInt (if a = Count_1h then n else 2)),
                (''count24h'', JInt (if a = Count_24h then n else 2)),
                (''minutesFromNowFor1h'', JInt (if a = Minutes_1h then n else 65)),
                (''minutesFromNowFor24h'', JInt (if a = Minutes_24h then n else 1450)),
                (''reuseTeamName'', JStr ''Seed Team'')]"
    if "map_of option_string_actions flag = Some a" "a \<noteq> Help" "a \<noteq> Team_name" for flag a
    using parse_args_explicit_int [of flag a to_int v n] that assms
    by (simp add: payload_for_int_flag)
  have following: "payload_for to_int [flag, v] =
           Inr [(''count1h'', JInt (if a = Count_1h then n else 2)),
                (''count24h'', JInt (if a = Count_24h then n else 2)),
                (''minutesFromNowFor1h'', JInt (if a = Minutes_1h then n else 65)),
                (''minutesFromNowFor24h'', JInt (if a = Minutes_24h then n else 1450)),
                (''reuseTeamName'', JStr ''Seed Team'')]"
    if "map_of option_string_actions flag = Some a" "a \<noteq> Help" "a \<noteq> Team_name"
      "parse_optional v = Inr None" for flag a
    using parse_args_following_int [of flag a to_int v n] that assms
    by (simp add: payload_for_int_flag)
  show ?thesis
    using explicit [OF flag_actions(1)] explicit [OF flag_actions(2)]
      explicit [OF flag_actions(3)] explicit [OF flag_actions(4)]
      following [OF flag_actions(1)] following [OF flag_actions(2)]
      following [OF flag_actions(3)] following [OF flag_actions(4)]
      str_int_is_argument [of m]
    by simp
qed

theorem no_range_check_C10_witness:
  "int_literal ''-5'' = Some (- 5) \<and>
   parse_optional ''-5'' = Inr None \<and>
   payload_for int_literal [''--count-1h'', ''-5''] =
     Inr [(''count1h'', JInt (- 5)), (''count24h'', JInt 2),
          (''minutesFromNowFor1h'', JInt 65), (''minutesFromNowFor24h'', JInt 1450),
          (''reuseTeamName'', JStr ''Seed Team'')] \<and>
   payload_for int_literal [''--minutes-24h=-5''] =
     Inr [(''count1h'', JInt 2), (''count24h'', JInt 2),
          (''minutesFromNowFor1h'', JInt 65), (''minutesFromNowFor24h'', JInt (- 5)),
          (''reuseTeamName'', JStr ''Seed Team'')]"
proof -
  have v: "int_literal ''-5'' = Some (- 5)" by code_simp
  have arg: "parse_optional ''-5'' = Inr None" by code_simp
  from no_range_check_C10 [of int_literal "''-5''" "- 5" 0] v arg show ?thesis by simp
qed

end
